theory Spec2Isabelle
  imports Main "HOL-Library.Word" "HOL-Library.AList"
begin

section \<open>The nabia engine: records, the store and its snapshot\<close>

text \<open>
  A shallow embedding of \<^verbatim>\<open>core/engine/engine.go\<close>. A Go string is a sequence of
  bytes, which is what \<^typ>\<open>string\<close> is. A Go byte slice is a reference: a header that
  is either \<^verbatim>\<open>nil\<close> or names a backing array, an offset into it and a length. The
  backing arrays live in a heap that the store and its callers share; copying a
  \<^verbatim>\<open>NabiaRecord\<close> copies the header and not the array.
\<close>

subsection \<open>Data\<close>

type_synonym byte = "8 word"

type_synonym heap = "byte list list"

datatype slice = NilSlice | Slice nat nat nat

text \<open>The bytes a slice shows in a heap; a \<^verbatim>\<open>nil\<close> slice shows none.\<close>

fun view :: "heap \<Rightarrow> slice \<Rightarrow> byte list" where
  "view h NilSlice = []"
| "view h (Slice a off n) = take n (drop off (h ! a))"

record NabiaRecord =
  RawData :: slice
  ContentType :: string

record NabiaDB =
  Records :: "(string \<times> NabiaRecord) list"
  location :: string

definition payload :: "heap \<Rightarrow> NabiaRecord \<Rightarrow> byte list" where
  "payload h r = view h (RawData r)"

text \<open>
  The errors of the engine. The first four are the \<^verbatim>\<open>fmt.Errorf\<close> values of
  \<^verbatim>\<open>Write\<close>, in the order of the source: "key cannot be empty", "value cannot be nil",
  "Content-Type cannot be empty", "Content-Type is not valid". \<open>NotFound key\<close> is
  "key '%s' doesn't exist" of \<^verbatim>\<open>Read\<close>. \<open>IOFailure\<close> carries an error of the
  \<^verbatim>\<open>os\<close> package and \<open>CorruptSnapshot\<close> is an error of \<^verbatim>\<open>gob\<close>'s decoder.
\<close>

datatype os_error = ErrNotExist | ErrOther

datatype error =
    EmptyKey
  | NilPayload
  | EmptyContentType
  | InvalidContentType
  | NotFound string
  | IOFailure os_error
  | CorruptSnapshot

subsection \<open>The media-type pattern\<close>

text \<open>
  \<^verbatim>\<open>regexp.MustCompile(`^[a-zA-Z0-9]+/[a-zA-Z0-9]+`).MatchString\<close>: the pattern is
  anchored at the start only. Since \<^verbatim>\<open>/\<close> is not in the class, the first run is the
  longest prefix in the class; it must be non-empty, followed by \<^verbatim>\<open>/\<close> and by one
  more character of the class. Whatever follows is not looked at.
\<close>

definition is_alnum :: "char \<Rightarrow> bool" where
  "is_alnum c =
     (let n = (of_char c :: nat)
      in (97 \<le> n \<and> n \<le> 122) \<or> (65 \<le> n \<and> n \<le> 90) \<or> (48 \<le> n \<and> n \<le> 57))"

definition MatchString :: "string \<Rightarrow> bool" where
  "MatchString s =
     (takeWhile is_alnum s \<noteq> [] \<and>
      (case dropWhile is_alnum s of
         [] \<Rightarrow> False
       | c # rest \<Rightarrow> c = CHR ''/'' \<and> (case rest of [] \<Rightarrow> False | d # _ \<Rightarrow> is_alnum d)))"

subsection \<open>The primitives of the store\<close>

definition Exists :: "string \<Rightarrow> NabiaDB \<Rightarrow> bool" where
  "Exists key ns = (case map_of (Records ns) key of Some _ \<Rightarrow> True | None \<Rightarrow> False)"

definition Read :: "string \<Rightarrow> NabiaDB \<Rightarrow> NabiaRecord \<times> error option" where
  "Read key ns =
     (case map_of (Records ns) key of
        Some record \<Rightarrow> (record, None)
      | None \<Rightarrow> (\<lparr>RawData = NilSlice, ContentType = []\<rparr>, Some (NotFound key)))"

definition Write :: "string \<Rightarrow> NabiaRecord \<Rightarrow> NabiaDB \<Rightarrow> error option \<times> NabiaDB" where
  "Write key val ns =
     (if key = [] then (Some EmptyKey, ns)
      else if RawData val = NilSlice then (Some NilPayload, ns)
      else if ContentType val = [] then (Some EmptyContentType, ns)
      else if \<not> MatchString (ContentType val) then (Some InvalidContentType, ns)
      else (None, ns\<lparr>Records := AList.update key val (Records ns)\<rparr>))"

definition Destroy :: "string \<Rightarrow> NabiaDB \<Rightarrow> NabiaDB" where
  "Destroy key ns = ns\<lparr>Records := AList.delete key (Records ns)\<rparr>"

subsection \<open>Durable storage\<close>

text \<open>
  The engine reaches durable storage through \<^verbatim>\<open>os.Stat\<close>, \<^verbatim>\<open>os.Create\<close> and
  \<^verbatim>\<open>os.Open\<close>. A world holds the files and a script of faults. Each of the three
  calls takes the head of the script and, when it is \<open>True\<close>, fails with an error that
  is not "does not exist" (a permission, a descriptor limit, a device error); with the
  script empty, a call fails only for what the files are. Writing to a file that was
  created, \<^verbatim>\<open>Flush\<close> and \<^verbatim>\<open>Close\<close> are taken to succeed: the source discards the
  results of the last two.

  The package \<^verbatim>\<open>encoding/gob\<close> is a library outside the repository, and its wire
  format is not modelled; what the engine relies on is kept. The content of a file is
  held as what \<^verbatim>\<open>gob\<close>'s decoder makes of its bytes when asked for a
  \<^verbatim>\<open>map[string]*NabiaRecord\<close>. \<open>NotGob bs\<close> stands for bytes \<open>bs\<close> that
  the decoder rejects; the empty file is among them (\<^verbatim>\<open>io.EOF\<close>). \<open>Gob es\<close> stands for
  a well-formed stream carrying the map entries \<open>es\<close>, in the order of the stream: each
  is a key, the payload bytes and the media type. \<^verbatim>\<open>gob\<close> does not transmit a struct
  field that holds the zero value of its type, so a payload of length zero is not on the
  wire, whether the slice was nil or empty, and the decoder leaves that field of the
  struct it allocates at nil.
\<close>

type_synonym gob_entry = "string \<times> byte list \<times> string"

datatype content = NotGob "byte list" | Gob "gob_entry list"

record world =
  files :: "string \<rightharpoonup> content"
  faults :: "bool list"

definition next_fault :: "world \<Rightarrow> bool \<times> world" where
  "next_fault w = (case faults w of [] \<Rightarrow> (False, w) | f # fs \<Rightarrow> (f, w\<lparr>faults := fs\<rparr>))"

definition os_Stat :: "string \<Rightarrow> world \<Rightarrow> os_error option \<times> world" where
  "os_Stat name w =
     (case next_fault w of (f, w') \<Rightarrow>
        if f then (Some ErrOther, w')
        else if files w' name = None then (Some ErrNotExist, w')
        else (None, w'))"

text \<open>\<^verbatim>\<open>os.Create\<close> makes the file, or truncates the one that is there.\<close>

definition os_Create :: "string \<Rightarrow> world \<Rightarrow> os_error option \<times> world" where
  "os_Create name w =
     (case next_fault w of (f, w') \<Rightarrow>
        if f then (Some ErrOther, w')
        else (None, w'\<lparr>files := (files w')(name \<mapsto> NotGob [])\<rparr>))"

definition os_Open :: "string \<Rightarrow> world \<Rightarrow> (os_error + content) \<times> world" where
  "os_Open name w =
     (case next_fault w of (f, w') \<Rightarrow>
        if f then (Inl ErrOther, w')
        else (case files w' name of
                None \<Rightarrow> (Inl ErrNotExist, w')
              | Some c \<Rightarrow> (Inr c, w')))"

text \<open>
  \<^verbatim>\<open>checkOrCreateFile\<close>: the boolean says whether the file was already there.
  \<^verbatim>\<open>os.IsNotExist(err)\<close> is the test \<open>err = ErrNotExist\<close>.
\<close>

definition checkOrCreateFile :: "string \<Rightarrow> world \<Rightarrow> (bool \<times> error option) \<times> world" where
  "checkOrCreateFile loc w =
     (case os_Stat loc w of
        (None, w1) \<Rightarrow> ((True, None), w1)
      | (Some err, w1) \<Rightarrow>
          if err = ErrNotExist then
            (case os_Create loc w1 of
               (Some err', w2) \<Rightarrow> ((False, Some (IOFailure err')), w2)
             | (None, w2) \<Rightarrow> ((False, None), w2))
          else ((False, Some (IOFailure err)), w1))"

subsection \<open>The snapshot\<close>

text \<open>
  \<^verbatim>\<open>Records.Range\<close> visits every key of the \<^verbatim>\<open>sync.Map\<close> once, with the record
  it holds then, in no promised order.
\<close>

definition sync_Range :: "(string \<times> NabiaRecord) list \<Rightarrow> (string \<times> NabiaRecord) list" where
  "sync_Range rs = AList.clearjunk rs"

text \<open>The encoder follows the pointers of the map and reads the payload bytes from the heap.\<close>

definition gobEncode :: "(string \<times> NabiaRecord) list \<Rightarrow> heap \<Rightarrow> gob_entry list" where
  "gobEncode data h = map (\<lambda>(key, r). (key, view h (RawData r), ContentType r)) data"

text \<open>
  The decoder allocates a struct for each entry, and a backing array for a payload that
  is on the wire; it puts the entries into the map in the order of the stream.
\<close>

definition decode_record :: "byte list \<Rightarrow> string \<Rightarrow> heap \<Rightarrow> NabiaRecord \<times> heap" where
  "decode_record bs ct h =
     (if bs = [] then (\<lparr>RawData = NilSlice, ContentType = ct\<rparr>, h)
      else (\<lparr>RawData = Slice (length h) 0 (length bs), ContentType = ct\<rparr>, h @ [bs]))"

fun decode_entries ::
  "gob_entry list \<Rightarrow> (string \<times> NabiaRecord) list \<Rightarrow> heap \<Rightarrow> (string \<times> NabiaRecord) list \<times> heap"
where
  "decode_entries [] data h = (data, h)"
| "decode_entries ((key, bs, ct) # es) data h =
     (case decode_record bs ct h of (r, h') \<Rightarrow> decode_entries es (AList.update key r data) h')"

definition gobDecode ::
  "content \<Rightarrow> (string \<times> NabiaRecord) list \<Rightarrow> heap \<Rightarrow> error + (string \<times> NabiaRecord) list \<times> heap"
where
  "gobDecode c data h =
     (case c of
        NotGob bs \<Rightarrow> Inl CorruptSnapshot
      | Gob es \<Rightarrow> Inr (decode_entries es data h))"

text \<open>
  \<^verbatim>\<open>saveToFile\<close>: create (or truncate) the file, copy the \<^verbatim>\<open>sync.Map\<close> into a Go map
  and encode it. The deferred \<^verbatim>\<open>Flush\<close> and \<^verbatim>\<open>Close\<close> put the stream into the file.
\<close>

definition saveToFile :: "string \<Rightarrow> NabiaDB \<Rightarrow> heap \<Rightarrow> world \<Rightarrow> error option \<times> world" where
  "saveToFile filename ns h w =
     (case os_Create filename w of
        (Some err, w1) \<Rightarrow> (Some (IOFailure err), w1)
      | (None, w1) \<Rightarrow>
          (let data = fold (\<lambda>(key, val) d. AList.update key val d) (sync_Range (Records ns)) []
           in (None, w1\<lparr>files := (files w1)(filename \<mapsto> Gob (gobEncode data h))\<rparr>)))"

text \<open>
  \<^verbatim>\<open>loadFromFile\<close>: open the file, decode it into a fresh Go map, and on success store
  every entry of that map into \<^verbatim>\<open>ns.Records\<close>. On an error nothing is stored.
\<close>

definition loadFromFile ::
  "string \<Rightarrow> NabiaDB \<Rightarrow> heap \<Rightarrow> world \<Rightarrow> error option \<times> NabiaDB \<times> heap \<times> world"
where
  "loadFromFile filename ns h w =
     (case os_Open filename w of
        (Inl err, w1) \<Rightarrow> (Some (IOFailure err), ns, h, w1)
      | (Inr c, w1) \<Rightarrow>
          (case gobDecode c [] h of
             Inl err \<Rightarrow> (Some err, ns, h, w1)
           | Inr (data, h') \<Rightarrow>
               (None,
                ns\<lparr>Records := fold (\<lambda>(key, val) rs. AList.update key val rs) data (Records ns)\<rparr>,
                h', w1)))"

text \<open>
  \<^verbatim>\<open>NewNabiaDB\<close> either returns its pair of results or ends the process in
  \<^verbatim>\<open>log.Fatalf\<close>. The result of \<^verbatim>\<open>ndb.loadFromFile(location)\<close> is not bound to anything
  in the source.
\<close>

datatype outcome =
    Returned "NabiaDB option" "error option" heap world
  | Fatal error world

definition NewNabiaDB :: "string \<Rightarrow> heap \<Rightarrow> world \<Rightarrow> outcome" where
  "NewNabiaDB loc h w =
     (case checkOrCreateFile loc w of
        ((exists, Some err), w1) \<Rightarrow> Returned None (Some err) h w1
      | ((exists, None), w1) \<Rightarrow>
          (let ndb = \<lparr>Records = [], location = loc\<rparr> in
           if exists then
             (case loadFromFile loc ndb h w1 of
                (_, ndb', h', w2) \<Rightarrow> Returned (Some ndb') None h' w2)
           else
             (case saveToFile loc ndb h w1 of
                (Some err, w2) \<Rightarrow> Fatal err w2
              | (None, w2) \<Rightarrow> Returned (Some ndb) None h w2)))"

subsection \<open>Notions used by the properties\<close>

text \<open>
  A slice is in a heap when its backing array is allocated there. The mapping the store
  shows in a heap sends a key to the payload bytes and the media type of its record.
\<close>

definition slice_in :: "heap \<Rightarrow> slice \<Rightarrow> bool" where
  "slice_in h s = (case s of NilSlice \<Rightarrow> True | Slice a off n \<Rightarrow> a < length h)"

definition slices_in :: "heap \<Rightarrow> NabiaDB \<Rightarrow> bool" where
  "slices_in h ns = (\<forall>r \<in> snd ` set (Records ns). slice_in h (RawData r))"

definition shown :: "heap \<Rightarrow> (string \<times> NabiaRecord) list \<Rightarrow> string \<rightharpoonup> byte list \<times> string" where
  "shown h rs = (\<lambda>key. map_option (\<lambda>r. (payload h r, ContentType r)) (map_of rs key))"

definition contents :: "heap \<Rightarrow> NabiaDB \<Rightarrow> string \<rightharpoonup> byte list \<times> string" where
  "contents h ns = shown h (Records ns)"


text \<open>
  What a caller can do to the record that \<^verbatim>\<open>Read\<close> returned: assign one of the two
  fields of its copy, or write one byte of the payload through the slice
  (\<^verbatim>\<open>rec.RawData[i] = b\<close>), which panics when \<open>i\<close> is not below the length.
\<close>

datatype mutation = SetRawData slice | SetContentType string | SetByte nat byte

fun mutate :: "mutation \<Rightarrow> NabiaRecord \<Rightarrow> heap \<Rightarrow> (NabiaRecord \<times> heap) option" where
  "mutate (SetRawData s) r h = Some (r\<lparr>RawData := s\<rparr>, h)"
| "mutate (SetContentType ct) r h = Some (r\<lparr>ContentType := ct\<rparr>, h)"
| "mutate (SetByte i b) r h =
     (case RawData r of
        NilSlice \<Rightarrow> None
      | Slice a off n \<Rightarrow> if i < n then Some (r, h[a := (h ! a)[off + i := b]]) else None)"

text \<open>
  The places of the structs. The \<^verbatim>\<open>sync.Map\<close> holds pointers (\<^verbatim>\<open>*NabiaRecord\<close>), and
  \<^verbatim>\<open>Read\<close> returns \<^verbatim>\<open>*record\<close>, a struct, which lands in a variable of the caller.
  A memory holds the cells of the structs beside the backing arrays of the payloads.
  \<open>Read_at\<close> is \<^verbatim>\<open>Read\<close> with the cells written out: the store is the list of keys
  with the cell each points to, and the result is the cell of the caller's variable,
  newly allocated and filled with the struct that \<^verbatim>\<open>Read\<close> returns. \<open>deref\<close> gives the
  records the pointers lead to, which is the store as \<open>Records\<close> has it. \<open>mutate_at\<close> is
  a mutation applied to the struct in a cell.
\<close>

record memory =
  structs :: "NabiaRecord list"
  arrays :: heap

definition deref :: "memory \<Rightarrow> (string \<times> nat) list \<Rightarrow> (string \<times> NabiaRecord) list" where
  "deref mem recs = map (\<lambda>(key, p). (key, structs mem ! p)) recs"

definition pointers_in :: "memory \<Rightarrow> (string \<times> nat) list \<Rightarrow> bool" where
  "pointers_in mem recs = list_all (\<lambda>(key, p). p < length (structs mem)) recs"

definition Read_at :: "string \<Rightarrow> (string \<times> nat) list \<Rightarrow> memory \<Rightarrow> (nat \<times> error option) \<times> memory" where
  "Read_at key recs mem =
     (case map_of recs key of
        Some p \<Rightarrow>
          ((length (structs mem), None), mem\<lparr>structs := structs mem @ [structs mem ! p]\<rparr>)
      | None \<Rightarrow>
          ((length (structs mem), Some (NotFound key)),
           mem\<lparr>structs := structs mem @ [\<lparr>RawData = NilSlice, ContentType = []\<rparr>]\<rparr>))"

definition mutate_at :: "mutation \<Rightarrow> nat \<Rightarrow> memory \<Rightarrow> memory option" where
  "mutate_at m c mem =
     (case mutate m (structs mem ! c) (arrays mem) of
        None \<Rightarrow> None
      | Some (r', h') \<Rightarrow> Some \<lparr>structs = (structs mem)[c := r'], arrays = h'\<rparr>)"

text \<open>
  The Validator of the specification, in its words: four rules checked in order, the
  first failing rule wins. The source has no function of this name; its checks are the
  first lines of \<^verbatim>\<open>Write\<close>.
\<close>

definition matches_media_type :: "string \<Rightarrow> bool" where
  "matches_media_type s =
     (\<exists>a b rest. s = a @ CHR ''/'' # b @ rest \<and> a \<noteq> [] \<and> b \<noteq> [] \<and>
        (\<forall>c \<in> set a. is_alnum c) \<and> (\<forall>c \<in> set b. is_alnum c))"

definition Validator :: "string \<Rightarrow> NabiaRecord \<Rightarrow> error option" where
  "Validator key r =
     (if key = [] then Some EmptyKey
      else if RawData r = NilSlice then Some NilPayload
      else if ContentType r = [] then Some EmptyContentType
      else if \<not> matches_media_type (ContentType r) then Some InvalidContentType
      else None)"

definition valid_entry :: "string \<Rightarrow> NabiaRecord \<Rightarrow> bool" where
  "valid_entry key r =
     (key \<noteq> [] \<and> RawData r \<noteq> NilSlice \<and> ContentType r \<noteq> [] \<and> MatchString (ContentType r))"

text \<open>
  Every record of the store satisfies the rules. An entry of a stream satisfies them when
  its key is non-empty, its payload is on the wire and its media type is non-empty and
  matches the pattern.
\<close>

definition store_valid :: "NabiaDB \<Rightarrow> bool" where
  "store_valid ns = list_all (\<lambda>(key, r). valid_entry key r) (sync_Range (Records ns))"

definition valid_gob_entry :: "gob_entry \<Rightarrow> bool" where
  "valid_gob_entry e =
     (case e of (key, bs, ct) \<Rightarrow> key \<noteq> [] \<and> bs \<noteq> [] \<and> ct \<noteq> [] \<and> MatchString ct)"

section \<open>Properties\<close>

subsection \<open>The pattern\<close>

lemma not_alnum_slash: "\<not> is_alnum CHR ''/''"
  by (simp add: is_alnum_def)

lemma MatchString_iff: "MatchString s = matches_media_type s"
proof
  assume m: "MatchString s"
  define a where "a = takeWhile is_alnum s"
  from m have a_ne: "a \<noteq> []" by (simp add: MatchString_def a_def)
  from m obtain d rest where dw: "dropWhile is_alnum s = CHR ''/'' # d # rest" and d: "is_alnum d"
    by (auto simp: MatchString_def split: list.splits)
  have "s = a @ dropWhile is_alnum s" by (simp add: a_def)
  with dw have "s = a @ CHR ''/'' # [d] @ rest" by simp
  moreover have "\<forall>c \<in> set a. is_alnum c" by (auto simp: a_def dest: set_takeWhileD)
  ultimately show "matches_media_type s"
    unfolding matches_media_type_def using a_ne d by (intro exI [of _ a] exI [of _ "[d]"] exI [of _ rest]) simp
next
  assume "matches_media_type s"
  then obtain a b rest where s: "s = a @ CHR ''/'' # b @ rest" and a: "a \<noteq> []" and b: "b \<noteq> []"
    and aa: "\<forall>c \<in> set a. is_alnum c" and bb: "\<forall>c \<in> set b. is_alnum c"
    unfolding matches_media_type_def by blast
  from aa have tw: "takeWhile is_alnum s = a"
    unfolding s by (simp add: not_alnum_slash)
  from aa have dw: "dropWhile is_alnum s = CHR ''/'' # b @ rest"
    unfolding s by (simp add: not_alnum_slash)
  from b bb obtain d b' where "b = d # b'" and "is_alnum d" by (cases b) auto
  with tw dw a show "MatchString s" by (simp add: MatchString_def)
qed

subsection \<open>Validation inside Write\<close>

lemma Write_error: "fst (Write key r ns) = Validator key r"
  by (simp add: Write_def Validator_def MatchString_iff)

lemma Write_rejected: "Validator key r = Some e \<Longrightarrow> Write key r ns = (Some e, ns)"
  by (auto simp: Write_def Validator_def MatchString_iff split: if_splits)

lemma Write_accepted:
  "Validator key r = None \<Longrightarrow>
     Write key r ns = (None, ns\<lparr>Records := AList.update key r (Records ns)\<rparr>)"
  by (auto simp: Write_def Validator_def MatchString_iff split: if_splits)

lemma Validator_None_iff: "Validator key r = None \<longleftrightarrow> valid_entry key r"
  by (simp add: Validator_def valid_entry_def MatchString_iff)

lemma MatchString_text_plain: "MatchString ''text/plain''"
  by (simp add: MatchString_def is_alnum_def)

lemma MatchString_json: "MatchString ''application/json; charset=UTF-8''"
  by (simp add: MatchString_def is_alnum_def)

lemma not_MatchString_not_a_type: "\<not> MatchString ''not-a-type''"
  by (simp add: MatchString_def is_alnum_def)

text \<open>
  C6. The checks of Write run in the order key non-empty, payload not nil, media type
  non-empty, media type matches the pattern, and the first one that fails is the error
  returned: an empty key gives EmptyKey whatever the record; a nil payload under a
  non-empty key gives NilPayload whatever the media type; an empty media type under a
  non-empty key and a non-nil payload gives EmptyContentType; a non-empty media type
  outside the pattern gives InvalidContentType; otherwise there is no error. This is the
  Validator of the specification.
\<close>

theorem Write_first_failing_rule:
  "fst (Write key r ns) = Validator key r \<and>
   (key = [] \<longrightarrow> fst (Write key r ns) = Some EmptyKey) \<and>
   (key \<noteq> [] \<and> RawData r = NilSlice \<longrightarrow> fst (Write key r ns) = Some NilPayload) \<and>
   (key \<noteq> [] \<and> RawData r \<noteq> NilSlice \<and> ContentType r = [] \<longrightarrow>
      fst (Write key r ns) = Some EmptyContentType) \<and>
   (key \<noteq> [] \<and> RawData r \<noteq> NilSlice \<and> ContentType r \<noteq> [] \<and>
    \<not> matches_media_type (ContentType r) \<longrightarrow>
      fst (Write key r ns) = Some InvalidContentType) \<and>
   (key \<noteq> [] \<and> RawData r \<noteq> NilSlice \<and> ContentType r \<noteq> [] \<and>
    matches_media_type (ContentType r) \<longrightarrow>
      fst (Write key r ns) = None)"
  by (simp add: Write_def Validator_def MatchString_iff)

theorem Write_first_failing_rule_witness:
  "fst (Write [] \<lparr>RawData = NilSlice, ContentType = []\<rparr> \<lparr>Records = [], location = ''n.db''\<rparr>)
     = Some EmptyKey \<and>
   fst (Write ''A'' \<lparr>RawData = NilSlice, ContentType = ''not-a-type''\<rparr>
          \<lparr>Records = [], location = ''n.db''\<rparr>) = Some NilPayload \<and>
   fst (Write ''A'' \<lparr>RawData = Slice 0 0 0, ContentType = []\<rparr>
          \<lparr>Records = [], location = ''n.db''\<rparr>) = Some EmptyContentType \<and>
   \<not> matches_media_type ''not-a-type'' \<and>
   fst (Write ''A'' \<lparr>RawData = Slice 0 0 0, ContentType = ''not-a-type''\<rparr>
          \<lparr>Records = [], location = ''n.db''\<rparr>) = Some InvalidContentType \<and>
   matches_media_type ''text/plain'' \<and>
   fst (Write ''A'' \<lparr>RawData = Slice 0 0 0, ContentType = ''text/plain''\<rparr>
          \<lparr>Records = [], location = ''n.db''\<rparr>) = None"
  using
    Write_first_failing_rule
      [of "[]" "\<lparr>RawData = NilSlice, ContentType = []\<rparr>" "\<lparr>Records = [], location = ''n.db''\<rparr>"]
    Write_first_failing_rule
      [of "''A''" "\<lparr>RawData = NilSlice, ContentType = ''not-a-type''\<rparr>"
          "\<lparr>Records = [], location = ''n.db''\<rparr>"]
    Write_first_failing_rule
      [of "''A''" "\<lparr>RawData = Slice 0 0 0, ContentType = []\<rparr>"
          "\<lparr>Records = [], location = ''n.db''\<rparr>"]
    Write_first_failing_rule
      [of "''A''" "\<lparr>RawData = Slice 0 0 0, ContentType = ''not-a-type''\<rparr>"
          "\<lparr>Records = [], location = ''n.db''\<rparr>"]
    Write_first_failing_rule
      [of "''A''" "\<lparr>RawData = Slice 0 0 0, ContentType = ''text/plain''\<rparr>"
          "\<lparr>Records = [], location = ''n.db''\<rparr>"]
    MatchString_text_plain not_MatchString_not_a_type
  by (simp add: MatchString_iff Validator_def)

text \<open>
  C5. When any validation rule fails for key K and record R, Write K R returns that
  failure and the store is the one it was given: Exists and Read answer for every key,
  K included, as before the call.
\<close>

theorem Write_invalid_no_mutation:
  assumes "Validator K R = Some e"
  shows "Write K R ns = (Some e, ns) \<and>
         (\<forall>k. Exists k (snd (Write K R ns)) = Exists k ns \<and>
              Read k (snd (Write K R ns)) = Read k ns)"
  using Write_rejected [OF assms] by simp

theorem Write_invalid_no_mutation_witness:
  "Validator ''A'' \<lparr>RawData = Slice 0 0 1, ContentType = ''not-a-type''\<rparr> = Some InvalidContentType \<and>
   Write ''A'' \<lparr>RawData = Slice 0 0 1, ContentType = ''not-a-type''\<rparr>
     \<lparr>Records = [(''A'', \<lparr>RawData = Slice 1 0 2, ContentType = ''text/plain''\<rparr>)], location = ''n.db''\<rparr>
   = (Some InvalidContentType,
      \<lparr>Records = [(''A'', \<lparr>RawData = Slice 1 0 2, ContentType = ''text/plain''\<rparr>)], location = ''n.db''\<rparr>)"
proof -
  have v: "Validator ''A'' \<lparr>RawData = Slice 0 0 1, ContentType = ''not-a-type''\<rparr> = Some InvalidContentType"
    using not_MatchString_not_a_type by (simp add: Validator_def MatchString_iff)
  show ?thesis
    using v Write_invalid_no_mutation [OF v] by simp
qed

text \<open>
  C7. For a key K and records R1, R2 that pass validation, Write K R1 succeeds, after
  it Exists K is true and Read K returns R1 without error, whatever the store held for
  K before; and after Write K R1 then Write K R2, Read K returns exactly R2: both fields
  come from R2.
\<close>

theorem Write_then_Read:
  assumes "Validator K R1 = None" and "Validator K R2 = None"
  shows "fst (Write K R1 ns) = None \<and>
         Exists K (snd (Write K R1 ns)) \<and>
         Read K (snd (Write K R1 ns)) = (R1, None) \<and>
         fst (Write K R2 (snd (Write K R1 ns))) = None \<and>
         Read K (snd (Write K R2 (snd (Write K R1 ns)))) = (R2, None)"
  by (simp add: Write_accepted [OF assms(1)] Write_accepted [OF assms(2)]
      Exists_def Read_def AList.update_conv')

theorem Write_then_Read_witness:
  "Validator ''A'' \<lparr>RawData = Slice 0 0 2, ContentType = ''text/plain''\<rparr> = None \<and>
   Validator ''A'' \<lparr>RawData = Slice 1 0 2, ContentType = ''application/json; charset=UTF-8''\<rparr> = None \<and>
   Read ''A''
     (snd (Write ''A'' \<lparr>RawData = Slice 1 0 2, ContentType = ''application/json; charset=UTF-8''\<rparr>
        (snd (Write ''A'' \<lparr>RawData = Slice 0 0 2, ContentType = ''text/plain''\<rparr>
           \<lparr>Records = [], location = ''n.db''\<rparr>))))
   = (\<lparr>RawData = Slice 1 0 2, ContentType = ''application/json; charset=UTF-8''\<rparr>, None)"
proof -
  have v1: "Validator ''A'' \<lparr>RawData = Slice 0 0 2, ContentType = ''text/plain''\<rparr> = None"
    using MatchString_text_plain by (simp add: Validator_def MatchString_iff)
  have v2: "Validator ''A'' \<lparr>RawData = Slice 1 0 2, ContentType = ''application/json; charset=UTF-8''\<rparr> = None"
    using MatchString_json by (simp add: Validator_def MatchString_iff)
  show ?thesis
    using v1 v2 Write_then_Read [OF v1 v2, of "\<lparr>Records = [], location = ''n.db''\<rparr>"] by simp
qed

text \<open>
  C10. For a key K that the store does not hold, Read K returns an error (NotFound)
  together with the zero record: nil payload and empty media type. That record fails
  validation under every key.
\<close>

theorem Read_missing:
  assumes "\<not> Exists K ns"
  shows "Read K ns = (\<lparr>RawData = NilSlice, ContentType = []\<rparr>, Some (NotFound K)) \<and>
         snd (Read K ns) \<noteq> None \<and>
         RawData (fst (Read K ns)) = NilSlice \<and>
         ContentType (fst (Read K ns)) = [] \<and>
         Validator k (fst (Read K ns)) \<noteq> None"
  using assms by (simp add: Read_def Exists_def Validator_def split: option.splits)

theorem Read_missing_witness:
  "\<not> Exists ''B'' \<lparr>Records = [(''A'', \<lparr>RawData = Slice 0 0 2, ContentType = ''text/plain''\<rparr>)],
                    location = ''n.db''\<rparr> \<and>
   Read ''B'' \<lparr>Records = [(''A'', \<lparr>RawData = Slice 0 0 2, ContentType = ''text/plain''\<rparr>)],
               location = ''n.db''\<rparr>
   = (\<lparr>RawData = NilSlice, ContentType = []\<rparr>, Some (NotFound ''B''))"
proof -
  have h: "\<not> Exists ''B'' \<lparr>Records = [(''A'', \<lparr>RawData = Slice 0 0 2, ContentType = ''text/plain''\<rparr>)],
                    location = ''n.db''\<rparr>"
    by (simp add: Exists_def)
  show ?thesis
    using h Read_missing [OF h] by simp
qed

subsection \<open>Maps built by repeated Store\<close>

lemma map_of_fold_update:
  "map_of (fold (\<lambda>(key, val) d. AList.update key val d) xs acc) = map_of acc ++ map_of (rev xs)"
proof (induction xs arbitrary: acc)
  case Nil
  then show ?case by simp
next
  case (Cons x xs)
  obtain k v where x: "x = (k, v)" by (cases x)
  show ?case
    by (auto simp: x Cons.IH AList.update_conv' fun_eq_iff map_add_def split: option.splits)
qed


lemma view_append: "slice_in h s \<Longrightarrow> view (h @ ext) s = view h s"
  by (cases s) (simp_all add: slice_in_def nth_append)

lemma slice_in_append: "slice_in h s \<Longrightarrow> slice_in (h @ ext) s"
  by (cases s) (simp_all add: slice_in_def)

lemma decode_record_props:
  assumes "decode_record bs ct h = (r, h')"
  shows "\<exists>ext. h' = h @ ext" and "slice_in h' (RawData r)"
    and "payload h' r = bs" and "ContentType r = ct"
  using assms by (auto simp: decode_record_def slice_in_def payload_def split: if_splits)


lemma map_of_rev_distinct: "distinct (map fst xs) \<Longrightarrow> map_of (rev xs) = map_of xs"
proof (induction xs)
  case Nil
  then show ?case by simp
next
  case (Cons x xs)
  obtain k v where x: "x = (k, v)" by (cases x)
  from Cons.prems have "k \<notin> fst ` set xs" by (simp add: x)
  then have "map_of xs k = None" by (simp add: map_of_eq_None_iff)
  with Cons show ?case
    by (auto simp: x fun_eq_iff map_add_def split: option.splits)
qed

lemma shown_update:
  "shown h (AList.update key r rs) = (shown h rs)(key \<mapsto> (payload h r, ContentType r))"
  by (auto simp: shown_def AList.update_conv' fun_eq_iff)

lemma shown_append:
  assumes "\<forall>r \<in> snd ` set rs. slice_in h (RawData r)"
  shows "shown (h @ ext) rs = shown h rs"
proof (rule ext)
  fix key
  show "shown (h @ ext) rs key = shown h rs key"
  proof (cases "map_of rs key")
    case None
    then show ?thesis by (simp add: shown_def)
  next
    case (Some r)
    then have "r \<in> snd ` set rs" by (force dest: map_of_SomeD)
    with assms have "slice_in h (RawData r)" by blast
    then show ?thesis by (simp add: shown_def Some payload_def view_append)
  qed
qed

lemma decode_entries_shown:
  assumes "decode_entries es data h = (data', h')"
    and "\<forall>r \<in> snd ` set data. slice_in h (RawData r)"
  shows "shown h' data' = shown h data ++ map_of (rev es) \<and>
         (\<forall>r \<in> snd ` set data'. slice_in h' (RawData r))"
  using assms
proof (induction es arbitrary: data h)
  case Nil
  then show ?case by simp
next
  case (Cons e es)
  obtain key bs ct where e: "e = (key, bs, ct)" by (cases e)
  obtain r h1 where dr: "decode_record bs ct h = (r, h1)" by (cases "decode_record bs ct h")
  from decode_record_props [OF dr] obtain ext where h1: "h1 = h @ ext"
    and r_in: "slice_in h1 (RawData r)" and r_pay: "payload h1 r = bs" and r_ct: "ContentType r = ct"
    by blast
  from Cons.prems(1) have rest: "decode_entries es (AList.update key r data) h1 = (data', h')"
    by (simp add: e dr)
  have in1: "\<forall>r' \<in> snd ` set (AList.update key r data). slice_in h1 (RawData r')"
  proof
    fix r' assume "r' \<in> snd ` set (AList.update key r data)"
    then have "r' = r \<or> r' \<in> snd ` set data"
      by (induction data) (auto split: if_splits)
    with r_in Cons.prems(2) show "slice_in h1 (RawData r')"
      by (auto simp: h1 slice_in_append)
  qed
  have sh1: "shown h1 (AList.update key r data) = (shown h data)(key \<mapsto> (bs, ct))"
    using shown_append [OF Cons.prems(2), of ext] by (simp add: shown_update r_pay r_ct h1 [symmetric])
  from Cons.IH [OF rest in1] have "shown h' data' = shown h1 (AList.update key r data) ++ map_of (rev es)"
    and in': "\<forall>r \<in> snd ` set data'. slice_in h' (RawData r)" by blast+
  then have "shown h' data' = (shown h data)(key \<mapsto> (bs, ct)) ++ map_of (rev es)"
    by (simp add: sh1)
  also have "\<dots> = shown h data ++ map_of (rev (e # es))"
    by (auto simp: e fun_eq_iff map_add_def split: option.splits)
  finally show ?case using in' by simp
qed

lemma distinct_decode_entries:
  "decode_entries es data h = (data', h') \<Longrightarrow> distinct (map fst data) \<Longrightarrow> distinct (map fst data')"
proof (induction es arbitrary: data h)
  case Nil
  then show ?case by simp
next
  case (Cons e es)
  obtain key bs ct where e: "e = (key, bs, ct)" by (cases e)
  obtain r h1 where dr: "decode_record bs ct h = (r, h1)" by (cases "decode_record bs ct h")
  from Cons.prems show ?case
    by (auto simp: e dr intro!: Cons.IH [of "AList.update key r data" h1] AList.distinct_update)
qed


lemma decode_entries_heap: "decode_entries es data h = (data', h') \<Longrightarrow> \<exists>ext. h' = h @ ext"
proof (induction es arbitrary: data h)
  case Nil
  then show ?case by simp
next
  case (Cons e es)
  obtain key bs ct where e: "e = (key, bs, ct)" by (cases e)
  obtain r h1 where dr: "decode_record bs ct h = (r, h1)" by (cases "decode_record bs ct h")
  from decode_record_props(1) [OF dr] obtain ext1 where h1: "h1 = h @ ext1" by blast
  from Cons.prems have "decode_entries es (AList.update key r data) h1 = (data', h')"
    by (simp add: e dr)
  from Cons.IH [OF this] obtain ext2 where "h' = h1 @ ext2" by blast
  then show ?case by (simp add: h1)
qed

lemma shown_Nil: "shown h [] = Map.empty"
  by (simp add: shown_def)

lemma shown_fold_update:
  "shown h (fold (\<lambda>(key, val) d. AList.update key val d) xs acc) = shown h acc ++ shown h (rev xs)"
  by (auto simp: shown_def map_of_fold_update fun_eq_iff map_add_def split: option.splits)

lemma shown_rev_distinct: "distinct (map fst xs) \<Longrightarrow> shown h (rev xs) = shown h xs"
  by (simp add: shown_def map_of_rev_distinct)

lemma os_Open_present:
  "files w f = Some c \<Longrightarrow> faults w = [] \<Longrightarrow> os_Open f w = (Inr c, w)"
  by (simp add: os_Open_def next_fault_def)


lemma set_update_subset: "set (AList.update k v al) \<subseteq> insert (k, v) (set al)"
  by (induction al) auto

lemma set_fold_update_subset:
  "set (fold (\<lambda>(key, val) d. AList.update key val d) xs acc) \<subseteq> set xs \<union> set acc"
proof (induction xs arbitrary: acc)
  case Nil
  then show ?case by simp
next
  case (Cons x xs)
  obtain k v where x: "x = (k, v)" by (cases x)
  from Cons.IH [of "AList.update k v acc"] set_update_subset [of k v acc]
  show ?case by (auto simp: x)
qed

lemma loadFromFile_Gob:
  assumes f: "files w f = Some (Gob es)" and nf: "faults w = []" and wf: "slices_in h ns"
  shows "\<exists>ns' h'. loadFromFile f ns h w = (None, ns', h', w) \<and> location ns' = location ns \<and>
           contents h' ns' = contents h ns ++ map_of (rev es) \<and> slices_in h' ns'"
proof -
  obtain data h' where de: "decode_entries es [] h = (data, h')" by (cases "decode_entries es [] h")
  define ns' where "ns' = ns\<lparr>Records := fold (\<lambda>(key, val) rs. AList.update key val rs) data (Records ns)\<rparr>"
  have l: "loadFromFile f ns h w = (None, ns', h', w)"
    by (simp add: loadFromFile_def os_Open_present [OF f nf] gobDecode_def de ns'_def)
  from decode_entries_heap [OF de] obtain ext where h': "h' = h @ ext" by blast
  from decode_entries_shown [OF de] have sd: "shown h' data = map_of (rev es)"
    and ind: "\<forall>r \<in> snd ` set data. slice_in h' (RawData r)"
    by (simp_all add: shown_Nil)
  have dd: "distinct (map fst data)" using distinct_decode_entries [OF de] by simp
  have old: "shown h' (Records ns) = shown h (Records ns)"
    using wf unfolding h' slices_in_def by (rule shown_append)
  have "contents h' ns' = shown h (Records ns) ++ map_of (rev es)"
    by (simp add: contents_def ns'_def shown_fold_update shown_rev_distinct [OF dd] sd old)
  moreover have "slices_in h' ns'"
    unfolding slices_in_def
  proof
    fix r assume "r \<in> snd ` set (Records ns')"
    then obtain k where "(k, r) \<in> set (Records ns')" by auto
    then have "(k, r) \<in> set data \<or> (k, r) \<in> set (Records ns)"
      using set_fold_update_subset [of data "Records ns"] by (auto simp: ns'_def)
    with ind wf show "slice_in h' (RawData r)"
      by (force simp: slices_in_def h' slice_in_append)
  qed
  ultimately show ?thesis using l by (auto simp: contents_def ns'_def)
qed

lemmas os_defs = next_fault_def os_Stat_def os_Create_def os_Open_def

subsection \<open>Saving and loading\<close>


lemma NewNabiaDB_existing:
  assumes "files w loc = Some c" and "faults w = []"
  shows "case loadFromFile loc \<lparr>Records = [], location = loc\<rparr> h w of
           (e, ndb, h', w') \<Rightarrow> NewNabiaDB loc h w = Returned (Some ndb) None h' w'"
  using assms by (simp add: NewNabiaDB_def checkOrCreateFile_def os_defs split: prod.splits)

lemma NewNabiaDB_Gob:
  assumes f: "files w loc = Some (Gob es)" and nf: "faults w = []"
  shows "\<exists>ndb h'. NewNabiaDB loc h w = Returned (Some ndb) None h' w \<and>
           contents h' ndb = map_of (rev es) \<and> location ndb = loc"
proof -
  have "slices_in h \<lparr>Records = [], location = loc\<rparr>" by (simp add: slices_in_def)
  from loadFromFile_Gob [OF f nf this] obtain ndb h' where
    l: "loadFromFile loc \<lparr>Records = [], location = loc\<rparr> h w = (None, ndb, h', w)"
    and c: "contents h' ndb = contents h \<lparr>Records = [], location = loc\<rparr> ++ map_of (rev es)"
    and lo: "location ndb = loc"
    by auto
  from NewNabiaDB_existing [OF f nf, of h] l have "NewNabiaDB loc h w = Returned (Some ndb) None h' w"
    by simp
  with c lo show ?thesis by (simp add: contents_def shown_Nil)
qed


lemma Read_absent_fields:
  "\<not> Exists key ns \<Longrightarrow> payload h (fst (Read key ns)) = [] \<and> ContentType (fst (Read key ns)) = []
     \<and> snd (Read key ns) = Some (NotFound key)"
  by (simp add: Exists_def Read_def payload_def split: option.splits)



subsection \<open>Stored records and the rules\<close>

lemma store_valid_iff:
  "store_valid ns \<longleftrightarrow> (\<forall>key r. map_of (Records ns) key = Some r \<longrightarrow> valid_entry key r)"
proof -
  have "set (sync_Range (Records ns)) = Map.graph (map_of (Records ns))"
    by (simp add: sync_Range_def AList.graph_map_of)
  then show ?thesis
    by (auto simp: store_valid_def list_all_iff Map.graph_def)
qed

lemma store_valid_empty: "store_valid \<lparr>Records = [], location = loc\<rparr>"
  by (simp add: store_valid_iff)

lemma store_valid_Write: "store_valid ns \<Longrightarrow> store_valid (snd (Write key r ns))"
  by (auto simp: store_valid_iff Write_def valid_entry_def AList.update_conv' split: if_splits)

lemma store_valid_Destroy: "store_valid ns \<Longrightarrow> store_valid (Destroy key ns)"
  by (auto simp: store_valid_iff Destroy_def AList.delete_conv' split: if_splits)

lemma decode_entries_valid:
  assumes "decode_entries es data h = (data', h')"
    and "\<forall>(key, r) \<in> set data. valid_entry key r"
    and "list_all valid_gob_entry es"
  shows "\<forall>(key, r) \<in> set data'. valid_entry key r"
  using assms
proof (induction es arbitrary: data h)
  case Nil
  then show ?case by simp
next
  case (Cons e es)
  obtain key bs ct where e: "e = (key, bs, ct)" by (cases e)
  obtain r h1 where dr: "decode_record bs ct h = (r, h1)" by (cases "decode_record bs ct h")
  from Cons.prems(3) have ve: "key \<noteq> []" "bs \<noteq> []" "ct \<noteq> []" "MatchString ct"
    by (simp_all add: e valid_gob_entry_def)
  from Cons.prems(3) have rest: "list_all valid_gob_entry es"
    by simp
  from dr ve have vr: "valid_entry key r"
    by (auto simp: decode_record_def valid_entry_def)
  have "\<forall>(key', r') \<in> set (AList.update key r data). valid_entry key' r'"
    using set_update_subset [of key r data] vr Cons.prems(2) by auto
  moreover from Cons.prems(1) have "decode_entries es (AList.update key r data) h1 = (data', h')"
    by (simp add: e dr)
  ultimately show ?case using Cons.IH rest by blast
qed

lemma loadFromFile_cases:
  "(\<exists>e w'. loadFromFile f ns h w = (Some e, ns, h, w')) \<or>
   (\<exists>es data h' w'. files w f = Some (Gob es) \<and> decode_entries es [] h = (data, h') \<and>
      loadFromFile f ns h w =
        (None, ns\<lparr>Records := fold (\<lambda>(key, val) rs. AList.update key val rs) data (Records ns)\<rparr>, h', w'))"
  by (auto simp: loadFromFile_def os_Open_def next_fault_def gobDecode_def
      split: prod.splits sum.splits option.splits list.splits content.splits if_splits)

lemma store_valid_loadFromFile:
  assumes sv: "store_valid ns"
    and ok: "\<forall>es. files w f = Some (Gob es) \<longrightarrow> list_all valid_gob_entry es"
  shows "store_valid (fst (snd (loadFromFile f ns h w)))"
  using loadFromFile_cases [of f ns h w]
proof (elim disjE exE conjE)
  fix e w' assume "loadFromFile f ns h w = (Some e, ns, h, w')"
  with sv show ?thesis by simp
next
  fix es data h' w'
  assume f: "files w f = Some (Gob es)" and de: "decode_entries es [] h = (data, h')"
    and l: "loadFromFile f ns h w =
        (None, ns\<lparr>Records := fold (\<lambda>(key, val) rs. AList.update key val rs) data (Records ns)\<rparr>, h', w')"
  from ok f have "list_all valid_gob_entry es" by blast
  with decode_entries_valid [OF de] have vd: "\<forall>(key, r) \<in> set data. valid_entry key r" by simp
  show ?thesis
    unfolding l store_valid_iff
  proof (intro allI impI)
    fix key r
    assume "map_of (Records (fst (snd (None, ns\<lparr>Records := fold (\<lambda>(key, val) rs. AList.update key val rs) data (Records ns)\<rparr>, h', w')))) key = Some r"
    then have "(map_of (Records ns) ++ map_of (rev data)) key = Some r"
      by (simp add: map_of_fold_update)
    then have "map_of (rev data) key = Some r \<or> map_of (Records ns) key = Some r"
      by (auto simp: map_add_def split: option.splits)
    then show "valid_entry key r"
    proof
      assume "map_of (rev data) key = Some r"
      then have "(key, r) \<in> set data" by (auto dest: map_of_SomeD)
      with vd show ?thesis by auto
    next
      assume "map_of (Records ns) key = Some r"
      with sv show ?thesis by (simp add: store_valid_iff)
    qed
  qed
qed

lemma checkOrCreateFile_existed:
  "checkOrCreateFile loc w = ((True, e), w1) \<Longrightarrow> e = None \<and> files w1 = files w \<and> files w loc \<noteq> None"
  by (auto simp: checkOrCreateFile_def os_Stat_def os_Create_def next_fault_def
      split: prod.splits option.splits if_splits list.splits)

lemma NewNabiaDB_cases:
  assumes "NewNabiaDB loc h w = Returned (Some ndb) e h' w'"
  shows "ndb = \<lparr>Records = [], location = loc\<rparr> \<or>
         (\<exists>w1. files w1 = files w \<and> ndb = fst (snd (loadFromFile loc \<lparr>Records = [], location = loc\<rparr> h w1)))"
proof -
  obtain ex ce w1 where c: "checkOrCreateFile loc w = ((ex, ce), w1)"
    by (metis surj_pair)
  show ?thesis
  proof (cases ex)
    case True
    with c have "checkOrCreateFile loc w = ((True, ce), w1)" by simp
    from checkOrCreateFile_existed [OF this] have ce: "ce = None" and fw: "files w1 = files w"
      by simp_all
    from assms have "ndb = fst (snd (loadFromFile loc \<lparr>Records = [], location = loc\<rparr> h w1))"
      by (simp add: NewNabiaDB_def c True ce split: prod.splits)
    with fw show ?thesis by blast
  next
    case False
    with assms c have "ndb = \<lparr>Records = [], location = loc\<rparr>"
      by (auto simp: NewNabiaDB_def Let_def split: prod.splits option.splits)
    then show ?thesis ..
  qed
qed

lemma store_valid_NewNabiaDB:
  assumes "NewNabiaDB loc h w = Returned (Some ndb) e h' w'"
    and ok: "\<forall>es. files w loc = Some (Gob es) \<longrightarrow> list_all valid_gob_entry es"
  shows "store_valid ndb"
  using NewNabiaDB_cases [OF assms(1)]
proof (elim disjE exE conjE)
  assume "ndb = \<lparr>Records = [], location = loc\<rparr>"
  then show ?thesis by (simp add: store_valid_empty)
next
  fix w1 assume fw: "files w1 = files w"
    and n: "ndb = fst (snd (loadFromFile loc \<lparr>Records = [], location = loc\<rparr> h w1))"
  from ok fw have "\<forall>es. files w1 loc = Some (Gob es) \<longrightarrow> list_all valid_gob_entry es" by simp
  from store_valid_loadFromFile [OF store_valid_empty this] n show ?thesis by simp
qed

subsection \<open>Save, then load\<close>











text \<open>
  The reloaded slices are fresh: the payload of \<open>''A''\<close> sits in a new backing array, and
  the empty payload of \<open>''E''\<close>, which is not on the wire, is reloaded as a nil slice.
\<close>

lemma reload_example:
  "saveToFile ''n.db''
     \<lparr>Records = [(''A'', \<lparr>RawData = Slice 0 0 2, ContentType = ''text/plain''\<rparr>),
                 (''E'', \<lparr>RawData = Slice 1 0 0, ContentType = ''application/json''\<rparr>)],
        location = ''n.db''\<rparr>
     [[0x76, 0x31], []] \<lparr>files = Map.empty, faults = []\<rparr>
   = (None, \<lparr>files = [''n.db'' \<mapsto> Gob [(''A'', [0x76, 0x31], ''text/plain''),
                                        (''E'', [], ''application/json'')]],
             faults = []\<rparr>) \<and>
   NewNabiaDB ''n.db'' [[0x76, 0x31], []]
     \<lparr>files = [''n.db'' \<mapsto> Gob [(''A'', [0x76, 0x31], ''text/plain''),
                                (''E'', [], ''application/json'')]],
        faults = []\<rparr>
   = Returned
       (Some \<lparr>Records = [(''A'', \<lparr>RawData = Slice 2 0 2, ContentType = ''text/plain''\<rparr>),
                         (''E'', \<lparr>RawData = NilSlice, ContentType = ''application/json''\<rparr>)],
               location = ''n.db''\<rparr>)
       None [[0x76, 0x31], [], [0x76, 0x31]]
       \<lparr>files = [''n.db'' \<mapsto> Gob [(''A'', [0x76, 0x31], ''text/plain''),
                                  (''E'', [], ''application/json'')]],
          faults = []\<rparr>"
  by (simp add: saveToFile_def NewNabiaDB_def checkOrCreateFile_def loadFromFile_def gobDecode_def
      gobEncode_def decode_record_def sync_Range_def os_defs)

subsection \<open>Construction\<close>

lemma NewNabiaDB_missing:
  assumes "files w loc = None" and "faults w = []"
  shows "NewNabiaDB loc h w =
           Returned (Some \<lparr>Records = [], location = loc\<rparr>) None h
             (w\<lparr>files := (files w)(loc \<mapsto> Gob [])\<rparr>)"
  using assms
  by (simp add: NewNabiaDB_def checkOrCreateFile_def saveToFile_def os_defs gobEncode_def
      sync_Range_def)

lemma NewNabiaDB_target_exists:
  assumes "NewNabiaDB loc h w = Returned (Some ndb) e h' w'"
  shows "files w' loc \<noteq> None"
  using assms
  by (auto simp: NewNabiaDB_def checkOrCreateFile_def loadFromFile_def saveToFile_def os_defs
      Let_def gobDecode_def
      split: prod.splits option.splits if_splits sum.splits list.splits content.splits)

text \<open>
  C9. Construction on a target, with no fault from the operating system: when the target
  exists, \<^verbatim>\<open>loadFromFile\<close> runs on a fresh store and \<^verbatim>\<open>NewNabiaDB\<close> returns the store it
  leaves, which for a well-formed stream shows exactly the entries of the stream; when
  the target does not exist, it is created and the snapshot of the empty store is written
  to it, and the empty store is returned. Whenever \<^verbatim>\<open>NewNabiaDB\<close> returns a store
  without an error, the target exists.
\<close>

theorem construction_policy:
  "(files w loc = Some c \<and> faults w = [] \<longrightarrow>
      (case loadFromFile loc \<lparr>Records = [], location = loc\<rparr> h w of
         (e, ndb, h', w') \<Rightarrow> NewNabiaDB loc h w = Returned (Some ndb) None h' w') \<and>
      (\<forall>es. c = Gob es \<longrightarrow>
         (\<exists>ndb h'. NewNabiaDB loc h w = Returned (Some ndb) None h' w \<and>
                    contents h' ndb = map_of (rev es)))) \<and>
   (files w loc = None \<and> faults w = [] \<longrightarrow>
      NewNabiaDB loc h w =
        Returned (Some \<lparr>Records = [], location = loc\<rparr>) None h
          (w\<lparr>files := (files w)(loc \<mapsto> Gob [])\<rparr>)) \<and>
   (\<forall>ndb h' w'. NewNabiaDB loc h w = Returned (Some ndb) None h' w' \<longrightarrow> files w' loc \<noteq> None)"
proof (intro conjI impI allI)
  assume a: "files w loc = Some c \<and> faults w = []"
  then show "case loadFromFile loc \<lparr>Records = [], location = loc\<rparr> h w of
         (e, ndb, h', w') \<Rightarrow> NewNabiaDB loc h w = Returned (Some ndb) None h' w'"
    by (simp add: NewNabiaDB_existing)
  fix es assume "c = Gob es"
  with a NewNabiaDB_Gob [of w loc es h]
  show "\<exists>ndb h'. NewNabiaDB loc h w = Returned (Some ndb) None h' w \<and> contents h' ndb = map_of (rev es)"
    by blast
next
  assume "files w loc = None \<and> faults w = []"
  then show "NewNabiaDB loc h w =
        Returned (Some \<lparr>Records = [], location = loc\<rparr>) None h
          (w\<lparr>files := (files w)(loc \<mapsto> Gob [])\<rparr>)"
    using NewNabiaDB_missing by blast
next
  fix ndb h' w' assume "NewNabiaDB loc h w = Returned (Some ndb) None h' w'"
  then show "files w' loc \<noteq> None" by (rule NewNabiaDB_target_exists)
qed

theorem construction_policy_witness:
  "NewNabiaDB ''n.db'' []
     \<lparr>files = [''n.db'' \<mapsto> Gob [(''A'', [0x76, 0x31], ''text/plain'')]], faults = []\<rparr>
   = Returned
       (Some \<lparr>Records = [(''A'', \<lparr>RawData = Slice 0 0 2, ContentType = ''text/plain''\<rparr>)],
               location = ''n.db''\<rparr>)
       None [[0x76, 0x31]]
       \<lparr>files = [''n.db'' \<mapsto> Gob [(''A'', [0x76, 0x31], ''text/plain'')]], faults = []\<rparr> \<and>
   NewNabiaDB ''n.db'' [] \<lparr>files = Map.empty, faults = []\<rparr>
   = Returned (Some \<lparr>Records = [], location = ''n.db''\<rparr>) None []
       \<lparr>files = [''n.db'' \<mapsto> Gob []], faults = []\<rparr> \<and>
   files \<lparr>files = [''n.db'' \<mapsto> Gob []], faults = []\<rparr> ''n.db'' \<noteq> None"
  using
    construction_policy [of "\<lparr>files = [''n.db'' \<mapsto> Gob [(''A'', [0x76, 0x31], ''text/plain'')]], faults = []\<rparr>"
      "''n.db''" "Gob [(''A'', [0x76, 0x31], ''text/plain'')]" "[]"]
    construction_policy [of "\<lparr>files = Map.empty, faults = []\<rparr>" "''n.db''" "Gob []" "[]"]
  by (simp add: loadFromFile_def gobDecode_def decode_record_def os_defs)

text \<open>
  C1. The claim is that construction on a target whose bytes cannot be decoded fails.
  On an existing, empty file \<^verbatim>\<open>loadFromFile\<close> does return the decoder's error, and
  \<^verbatim>\<open>NewNabiaDB\<close>, which does not look at that result, returns an empty store and no
  error.
\<close>

theorem NewNabiaDB_drops_load_error:
  "loadFromFile ''n.db'' \<lparr>Records = [], location = ''n.db''\<rparr> []
     \<lparr>files = [''n.db'' \<mapsto> NotGob []], faults = []\<rparr>
   = (Some CorruptSnapshot, \<lparr>Records = [], location = ''n.db''\<rparr>, [],
      \<lparr>files = [''n.db'' \<mapsto> NotGob []], faults = []\<rparr>) \<and>
   NewNabiaDB ''n.db'' [] \<lparr>files = [''n.db'' \<mapsto> NotGob []], faults = []\<rparr>
   = Returned (Some \<lparr>Records = [], location = ''n.db''\<rparr>) None []
       \<lparr>files = [''n.db'' \<mapsto> NotGob []], faults = []\<rparr>"
  by (simp add: NewNabiaDB_def checkOrCreateFile_def loadFromFile_def gobDecode_def os_defs)

text \<open>
  C8, as stated, fails: when the target is missing and is created, and the write of the
  first snapshot then fails, \<^verbatim>\<open>NewNabiaDB\<close> does not return the error; the process
  ends in \<^verbatim>\<open>log.Fatalf\<close>.
\<close>

theorem NewNabiaDB_fatal_counterexample:
  "checkOrCreateFile ''n.db'' \<lparr>files = Map.empty, faults = [False, False, True]\<rparr>
   = ((False, None), \<lparr>files = [''n.db'' \<mapsto> NotGob []], faults = [True]\<rparr>) \<and>
   saveToFile ''n.db'' \<lparr>Records = [], location = ''n.db''\<rparr> []
     \<lparr>files = [''n.db'' \<mapsto> NotGob []], faults = [True]\<rparr>
   = (Some (IOFailure ErrOther), \<lparr>files = [''n.db'' \<mapsto> NotGob []], faults = []\<rparr>) \<and>
   NewNabiaDB ''n.db'' [] \<lparr>files = Map.empty, faults = [False, False, True]\<rparr>
   = Fatal (IOFailure ErrOther) \<lparr>files = [''n.db'' \<mapsto> NotGob []], faults = []\<rparr>"
  by (simp add: NewNabiaDB_def checkOrCreateFile_def saveToFile_def os_defs)

text \<open>
  C8, amended. The validation failure of Write and the miss of Read are returned to the
  caller; \<^verbatim>\<open>saveToFile\<close> and \<^verbatim>\<open>loadFromFile\<close> return the error of creating or opening
  the file, and \<^verbatim>\<open>loadFromFile\<close> returns the decoder's error; \<^verbatim>\<open>NewNabiaDB\<close> returns
  the error of \<^verbatim>\<open>checkOrCreateFile\<close>; and when the write of the first snapshot fails,
  \<^verbatim>\<open>NewNabiaDB\<close> logs the error and ends the process.
\<close>

theorem errors_returned_or_fatal:
  "fst (Write key r ns) = Validator key r \<and>
   (\<not> Exists key ns \<longrightarrow> snd (Read key ns) = Some (NotFound key)) \<and>
   (fst (os_Create f w) = Some e \<longrightarrow> fst (saveToFile f ns h w) = Some (IOFailure e)) \<and>
   (fst (os_Open f w) = Inl e \<longrightarrow> fst (loadFromFile f ns h w) = Some (IOFailure e)) \<and>
   (fst (os_Open f w) = Inr (NotGob bs) \<longrightarrow> fst (loadFromFile f ns h w) = Some CorruptSnapshot) \<and>
   (snd (fst (checkOrCreateFile f w)) = Some err \<longrightarrow>
      NewNabiaDB f h w = Returned None (Some err) h (snd (checkOrCreateFile f w))) \<and>
   (checkOrCreateFile f w = ((False, None), w') \<and>
    saveToFile f \<lparr>Records = [], location = f\<rparr> h w' = (Some err', w'') \<longrightarrow>
      NewNabiaDB f h w = Fatal err' w'')"
proof (intro conjI impI)
  show "fst (Write key r ns) = Validator key r" by (rule Write_error)
  show "snd (Read key ns) = Some (NotFound key)" if "\<not> Exists key ns"
    using that by (simp add: Read_absent_fields)
  show "fst (saveToFile f ns h w) = Some (IOFailure e)" if "fst (os_Create f w) = Some e"
    using that by (cases "os_Create f w") (simp add: saveToFile_def)
  show "fst (loadFromFile f ns h w) = Some (IOFailure e)" if "fst (os_Open f w) = Inl e"
    using that by (cases "os_Open f w") (simp add: loadFromFile_def)
  show "fst (loadFromFile f ns h w) = Some CorruptSnapshot" if "fst (os_Open f w) = Inr (NotGob bs)"
    using that by (cases "os_Open f w") (simp add: loadFromFile_def gobDecode_def)
  show "NewNabiaDB f h w = Returned None (Some err) h (snd (checkOrCreateFile f w))"
    if "snd (fst (checkOrCreateFile f w)) = Some err"
    using that by (cases "checkOrCreateFile f w") (auto simp: NewNabiaDB_def)
  show "NewNabiaDB f h w = Fatal err' w''"
    if "checkOrCreateFile f w = ((False, None), w') \<and>
        saveToFile f \<lparr>Records = [], location = f\<rparr> h w' = (Some err', w'')"
    using that by (simp add: NewNabiaDB_def)
qed

theorem errors_returned_or_fatal_witness:
  "\<not> Exists ''B'' \<lparr>Records = [], location = ''n.db''\<rparr> \<and>
   snd (Read ''B'' \<lparr>Records = [], location = ''n.db''\<rparr>) = Some (NotFound ''B'') \<and>
   fst (os_Create ''n.db'' \<lparr>files = Map.empty, faults = [True]\<rparr>) = Some ErrOther \<and>
   fst (saveToFile ''n.db'' \<lparr>Records = [], location = ''n.db''\<rparr> []
          \<lparr>files = Map.empty, faults = [True]\<rparr>) = Some (IOFailure ErrOther) \<and>
   fst (os_Open ''n.db'' \<lparr>files = Map.empty, faults = []\<rparr>) = Inl ErrNotExist \<and>
   fst (loadFromFile ''n.db'' \<lparr>Records = [], location = ''n.db''\<rparr> []
          \<lparr>files = Map.empty, faults = []\<rparr>) = Some (IOFailure ErrNotExist) \<and>
   fst (os_Open ''n.db'' \<lparr>files = [''n.db'' \<mapsto> NotGob []], faults = []\<rparr>) = Inr (NotGob []) \<and>
   fst (loadFromFile ''n.db'' \<lparr>Records = [], location = ''n.db''\<rparr> []
          \<lparr>files = [''n.db'' \<mapsto> NotGob []], faults = []\<rparr>) = Some CorruptSnapshot \<and>
   snd (fst (checkOrCreateFile ''n.db'' \<lparr>files = Map.empty, faults = [True]\<rparr>))
     = Some (IOFailure ErrOther) \<and>
   NewNabiaDB ''n.db'' [] \<lparr>files = Map.empty, faults = [True]\<rparr>
     = Returned None (Some (IOFailure ErrOther)) [] \<lparr>files = Map.empty, faults = []\<rparr> \<and>
   checkOrCreateFile ''n.db'' \<lparr>files = Map.empty, faults = [False, False, True]\<rparr>
     = ((False, None), \<lparr>files = [''n.db'' \<mapsto> NotGob []], faults = [True]\<rparr>) \<and>
   saveToFile ''n.db'' \<lparr>Records = [], location = ''n.db''\<rparr> []
     \<lparr>files = [''n.db'' \<mapsto> NotGob []], faults = [True]\<rparr>
     = (Some (IOFailure ErrOther), \<lparr>files = [''n.db'' \<mapsto> NotGob []], faults = []\<rparr>) \<and>
   NewNabiaDB ''n.db'' [] \<lparr>files = Map.empty, faults = [False, False, True]\<rparr>
     = Fatal (IOFailure ErrOther) \<lparr>files = [''n.db'' \<mapsto> NotGob []], faults = []\<rparr>"
proof -
  have c: "checkOrCreateFile ''n.db'' \<lparr>files = Map.empty, faults = [False, False, True]\<rparr>
     = ((False, None), \<lparr>files = [''n.db'' \<mapsto> NotGob []], faults = [True]\<rparr>)"
    by (simp add: checkOrCreateFile_def os_defs)
  have s: "saveToFile ''n.db'' \<lparr>Records = [], location = ''n.db''\<rparr> []
     \<lparr>files = [''n.db'' \<mapsto> NotGob []], faults = [True]\<rparr>
     = (Some (IOFailure ErrOther), \<lparr>files = [''n.db'' \<mapsto> NotGob []], faults = []\<rparr>)"
    by (simp add: saveToFile_def os_defs)
  have c1: "checkOrCreateFile ''n.db'' \<lparr>files = Map.empty, faults = [True]\<rparr>
     = ((False, Some (IOFailure ErrOther)), \<lparr>files = Map.empty, faults = []\<rparr>)"
    by (simp add: checkOrCreateFile_def os_defs)
  have o1: "os_Create ''n.db'' \<lparr>files = Map.empty, faults = [True]\<rparr>
     = (Some ErrOther, \<lparr>files = Map.empty, faults = []\<rparr>)"
    by (simp add: os_defs)
  have o2: "os_Open ''n.db'' \<lparr>files = Map.empty, faults = []\<rparr>
     = (Inl ErrNotExist, \<lparr>files = Map.empty, faults = []\<rparr>)"
    by (simp add: os_defs)
  have o3: "os_Open ''n.db'' \<lparr>files = [''n.db'' \<mapsto> NotGob []], faults = []\<rparr>
     = (Inr (NotGob []), \<lparr>files = [''n.db'' \<mapsto> NotGob []], faults = []\<rparr>)"
    by (simp add: os_defs)
  have e: "\<not> Exists ''B'' \<lparr>Records = [], location = ''n.db''\<rparr>"
    by (simp add: Exists_def)
  show ?thesis
    using c s c1 o1 o2 o3 e
      errors_returned_or_fatal [where key = "''B''" and ns = "\<lparr>Records = [], location = ''n.db''\<rparr>"
        and f = "''n.db''" and w = "\<lparr>files = Map.empty, faults = [True]\<rparr>" and e = ErrOther
        and h = "[]" and err = "IOFailure ErrOther"]
      errors_returned_or_fatal [where ns = "\<lparr>Records = [], location = ''n.db''\<rparr>"
        and f = "''n.db''" and w = "\<lparr>files = Map.empty, faults = []\<rparr>" and e = ErrNotExist
        and h = "[]"]
      errors_returned_or_fatal [where ns = "\<lparr>Records = [], location = ''n.db''\<rparr>"
        and f = "''n.db''" and w = "\<lparr>files = [''n.db'' \<mapsto> NotGob []], faults = []\<rparr>"
        and bs = "[]" and h = "[]"]
      errors_returned_or_fatal [where f = "''n.db''"
        and w = "\<lparr>files = Map.empty, faults = [False, False, True]\<rparr>" and h = "[]"
        and w' = "\<lparr>files = [''n.db'' \<mapsto> NotGob []], faults = [True]\<rparr>"
        and err' = "IOFailure ErrOther"
        and w'' = "\<lparr>files = [''n.db'' \<mapsto> NotGob []], faults = []\<rparr>"]
    by simp
qed

subsection \<open>The rules and the records in the store\<close>

text \<open>
  C2, as stated, fails at load: a snapshot that carries a record outside the rules is
  decoded and stored as it is.
\<close>

theorem load_stores_invalid_record_counterexample:
  "store_valid \<lparr>Records = [], location = ''n.db''\<rparr> \<and>
   NewNabiaDB ''n.db'' []
     \<lparr>files = [''n.db'' \<mapsto> Gob [(''A'', [0x76, 0x31], ''not-a-type'')]], faults = []\<rparr>
   = Returned
       (Some \<lparr>Records = [(''A'', \<lparr>RawData = Slice 0 0 2, ContentType = ''not-a-type''\<rparr>)],
               location = ''n.db''\<rparr>)
       None [[0x76, 0x31]]
       \<lparr>files = [''n.db'' \<mapsto> Gob [(''A'', [0x76, 0x31], ''not-a-type'')]], faults = []\<rparr> \<and>
   \<not> valid_entry ''A'' \<lparr>RawData = Slice 0 0 2, ContentType = ''not-a-type''\<rparr> \<and>
   \<not> store_valid \<lparr>Records = [(''A'', \<lparr>RawData = Slice 0 0 2, ContentType = ''not-a-type''\<rparr>)],
                    location = ''n.db''\<rparr>"
  using not_MatchString_not_a_type
  by (simp add: NewNabiaDB_def checkOrCreateFile_def loadFromFile_def gobDecode_def
      decode_record_def os_defs store_valid_def sync_Range_def valid_entry_def)

text \<open>
  C2, amended. From a store whose records all satisfy the rules: Write, whether it
  succeeds or fails, and Destroy leave such a store, and Write stores a record only if it
  satisfies the rules; Read, Exists and \<^verbatim>\<open>saveToFile\<close> give back no store and leave
  the one they are given as it is. The store of a fresh construction is empty. Loading,
  and with it construction on an existing target, leaves such a store provided every
  entry of the snapshot satisfies the rules: the load path does not check them.
\<close>

theorem valid_records_preserved:
  assumes "store_valid ns"
    and "\<forall>es. files w f = Some (Gob es) \<longrightarrow> list_all valid_gob_entry es"
  shows "store_valid (snd (Write key r ns)) \<and>
         (fst (Write key r ns) = None \<longrightarrow> valid_entry key r) \<and>
         store_valid (Destroy key ns) \<and>
         store_valid (fst (snd (loadFromFile f ns h w))) \<and>
         store_valid \<lparr>Records = [], location = f\<rparr> \<and>
         (\<forall>ndb e h' w'. NewNabiaDB f h w = Returned (Some ndb) e h' w' \<longrightarrow> store_valid ndb)"
proof (intro conjI allI impI)
  show "store_valid (snd (Write key r ns))" using assms(1) by (rule store_valid_Write)
  show "valid_entry key r" if "fst (Write key r ns) = None"
    using that by (simp add: Write_error Validator_None_iff)
  show "store_valid (Destroy key ns)" using assms(1) by (rule store_valid_Destroy)
  show "store_valid (fst (snd (loadFromFile f ns h w)))"
    using assms by (rule store_valid_loadFromFile)
  show "store_valid \<lparr>Records = [], location = f\<rparr>" by (rule store_valid_empty)
  show "store_valid ndb" if "NewNabiaDB f h w = Returned (Some ndb) e h' w'" for ndb e h' w'
    using that assms(2) by (rule store_valid_NewNabiaDB)
qed

theorem valid_records_preserved_witness:
  "store_valid \<lparr>Records = [(''A'', \<lparr>RawData = Slice 0 0 2, ContentType = ''text/plain''\<rparr>)],
                 location = ''n.db''\<rparr> \<and>
   list_all valid_gob_entry [(''B'', [0x76, 0x32], ''application/json; charset=UTF-8'')] \<and>
   store_valid (snd (Write ''C'' \<lparr>RawData = Slice 0 0 1, ContentType = ''text/plain''\<rparr>
     \<lparr>Records = [(''A'', \<lparr>RawData = Slice 0 0 2, ContentType = ''text/plain''\<rparr>)],
        location = ''n.db''\<rparr>)) \<and>
   store_valid (Destroy ''A''
     \<lparr>Records = [(''A'', \<lparr>RawData = Slice 0 0 2, ContentType = ''text/plain''\<rparr>)],
        location = ''n.db''\<rparr>) \<and>
   store_valid (fst (snd (loadFromFile ''n.db''
     \<lparr>Records = [(''A'', \<lparr>RawData = Slice 0 0 2, ContentType = ''text/plain''\<rparr>)],
        location = ''n.db''\<rparr> [[0x76, 0x31]]
     \<lparr>files = [''n.db'' \<mapsto> Gob [(''B'', [0x76, 0x32], ''application/json; charset=UTF-8'')]],
        faults = []\<rparr>))) \<and>
   NewNabiaDB ''n.db'' [[0x76, 0x31]]
     \<lparr>files = [''n.db'' \<mapsto> Gob [(''B'', [0x76, 0x32], ''application/json; charset=UTF-8'')]],
        faults = []\<rparr>
   = Returned
       (Some \<lparr>Records = [(''B'', \<lparr>RawData = Slice 1 0 2,
                                   ContentType = ''application/json; charset=UTF-8''\<rparr>)],
               location = ''n.db''\<rparr>)
       None [[0x76, 0x31], [0x76, 0x32]]
       \<lparr>files = [''n.db'' \<mapsto> Gob [(''B'', [0x76, 0x32], ''application/json; charset=UTF-8'')]],
          faults = []\<rparr> \<and>
   store_valid \<lparr>Records = [(''B'', \<lparr>RawData = Slice 1 0 2,
                                   ContentType = ''application/json; charset=UTF-8''\<rparr>)],
                 location = ''n.db''\<rparr>"
proof -
  have sv: "store_valid \<lparr>Records = [(''A'', \<lparr>RawData = Slice 0 0 2, ContentType = ''text/plain''\<rparr>)],
                 location = ''n.db''\<rparr>"
    using MatchString_text_plain by (simp add: store_valid_def sync_Range_def valid_entry_def)
  have ve: "list_all valid_gob_entry [(''B'', [0x76, 0x32], ''application/json; charset=UTF-8'')]"
    using MatchString_json by (simp add: valid_gob_entry_def)
  have ok: "\<forall>es. files \<lparr>files = [''n.db'' \<mapsto> Gob [(''B'', [0x76, 0x32], ''application/json; charset=UTF-8'')]],
        faults = []\<rparr> ''n.db'' = Some (Gob es) \<longrightarrow> list_all valid_gob_entry es"
    using ve by simp
  have n: "NewNabiaDB ''n.db'' [[0x76, 0x31]]
     \<lparr>files = [''n.db'' \<mapsto> Gob [(''B'', [0x76, 0x32], ''application/json; charset=UTF-8'')]],
        faults = []\<rparr>
   = Returned
       (Some \<lparr>Records = [(''B'', \<lparr>RawData = Slice 1 0 2,
                                   ContentType = ''application/json; charset=UTF-8''\<rparr>)],
               location = ''n.db''\<rparr>)
       None [[0x76, 0x31], [0x76, 0x32]]
       \<lparr>files = [''n.db'' \<mapsto> Gob [(''B'', [0x76, 0x32], ''application/json; charset=UTF-8'')]],
          faults = []\<rparr>"
    by (simp add: NewNabiaDB_def checkOrCreateFile_def loadFromFile_def gobDecode_def
      decode_record_def os_defs)
  from valid_records_preserved [OF sv ok, where key = "''C''"
        and r = "\<lparr>RawData = Slice 0 0 1, ContentType = ''text/plain''\<rparr>" and h = "[[0x76, 0x31]]"]
    valid_records_preserved [OF sv ok, where key = "''A''" and h = "[[0x76, 0x31]]"] n sv ve
  show ?thesis by simp
qed

subsection \<open>What Read hands out\<close>

text \<open>
  C4, as stated, fails: the record that Read returns shares the backing array of its
  payload with the stored record, so a byte written through it shows in the next Read.
\<close>

theorem Read_payload_aliased_counterexample:
  "Exists ''A'' \<lparr>Records = [(''A'', \<lparr>RawData = Slice 0 0 2, ContentType = ''text/plain''\<rparr>)],
                  location = ''n.db''\<rparr> \<and>
   payload [[0x76, 0x31]]
     (fst (Read ''A'' \<lparr>Records = [(''A'', \<lparr>RawData = Slice 0 0 2, ContentType = ''text/plain''\<rparr>)],
                       location = ''n.db''\<rparr>)) = [0x76, 0x31] \<and>
   mutate (SetByte 1 0x32)
     (fst (Read ''A'' \<lparr>Records = [(''A'', \<lparr>RawData = Slice 0 0 2, ContentType = ''text/plain''\<rparr>)],
                       location = ''n.db''\<rparr>)) [[0x76, 0x31]]
   = Some (\<lparr>RawData = Slice 0 0 2, ContentType = ''text/plain''\<rparr>, [[0x76, 0x32]]) \<and>
   payload [[0x76, 0x32]]
     (fst (Read ''A'' \<lparr>Records = [(''A'', \<lparr>RawData = Slice 0 0 2, ContentType = ''text/plain''\<rparr>)],
                       location = ''n.db''\<rparr>)) = [0x76, 0x32] \<and>
   [0x76, 0x32] \<noteq> [0x76, 0x31 :: byte]"
  by (simp add: Exists_def Read_def payload_def)

lemma view_SetByte:
  assumes "a < length h"
  shows "view (h[a := (h ! a)[off + i := b]]) (Slice a off n) = (view h (Slice a off n))[i := b]"
  using assms by (simp add: drop_update_swap take_update_swap)

lemma map_of_deref:
  "map_of (deref mem recs) key = map_option (\<lambda>p. structs mem ! p) (map_of recs key)"
  by (simp add: deref_def map_of_map [unfolded comp_def])

lemma Read_deref:
  "Read key \<lparr>Records = deref mem recs, location = loc\<rparr> =
     (case map_of recs key of
        Some p \<Rightarrow> (structs mem ! p, None)
      | None \<Rightarrow> (\<lparr>RawData = NilSlice, ContentType = []\<rparr>, Some (NotFound key)))"
  by (simp add: Read_def map_of_deref split: option.splits)

lemma Read_at_Read:
  assumes "Read_at key recs mem = ((c, e), mem1)"
  shows "(structs mem1 ! c, e) = Read key \<lparr>Records = deref mem recs, location = loc\<rparr>"
    and "c = length (structs mem)" and "arrays mem1 = arrays mem"
    and "take c (structs mem1) = structs mem" and "length (structs mem1) = Suc c"
  using assms by (auto simp: Read_at_def Read_deref split: option.splits)

lemma deref_cong:
  assumes "pointers_in mem recs" and "take (length (structs mem)) (structs mem') = structs mem"
  shows "deref mem' recs = deref mem recs"
proof -
  have "structs mem' ! p = structs mem ! p" if "p < length (structs mem)" for p
  proof -
    have "structs mem ! p = take (length (structs mem)) (structs mem') ! p" by (simp add: assms(2))
    also have "\<dots> = structs mem' ! p" using that by simp
    finally show ?thesis by simp
  qed
  with assms(1) show ?thesis
    by (auto simp: deref_def pointers_in_def list_all_iff)
qed

text \<open>
  C4, amended. Read returns a copy of the stored struct: the caller's record sits in a
  cell of its own, which holds the struct that Read returns and is none of the cells the
  store points to. For a key in the store, after the caller assigns a field of its record
  (a new payload slice, a new media type), the assignment is in the caller's cell, every
  struct of the store is as before, and a later Read of the key returns the same struct,
  with the stored media type and payload bytes. The payload slice of the copy names the
  same backing array as the stored record: after the caller writes byte \<open>i\<close> of its
  payload in place, the structs of the store are as before, media type included, and a
  later Read of the key shows the payload with byte \<open>i\<close> replaced.
\<close>

theorem Read_returns_shallow_copy:
  assumes present: "map_of recs key = Some p"
    and ptrs: "pointers_in mem recs"
    and slice: "slice_in (arrays mem) (RawData (structs mem ! p))"
    and rd: "Read_at key recs mem = ((c, e), mem1)"
    and mu: "mutate_at m c mem1 = Some mem2"
  shows "e = None \<and>
         (structs mem1 ! c, e) = Read key \<lparr>Records = deref mem recs, location = loc\<rparr> \<and>
         c \<notin> snd ` set recs \<and>
         (case m of
            SetRawData s \<Rightarrow> RawData (structs mem2 ! c) = s
          | SetContentType ct \<Rightarrow> ContentType (structs mem2 ! c) = ct
          | SetByte i b \<Rightarrow> structs mem2 ! c = structs mem1 ! c) \<and>
         deref mem2 recs = deref mem recs \<and>
         Read key \<lparr>Records = deref mem2 recs, location = loc\<rparr> =
           Read key \<lparr>Records = deref mem recs, location = loc\<rparr> \<and>
         ContentType (fst (Read key \<lparr>Records = deref mem2 recs, location = loc\<rparr>)) =
           ContentType (structs mem ! p) \<and>
         (case m of
            SetByte i b \<Rightarrow>
              payload (arrays mem2) (fst (Read key \<lparr>Records = deref mem2 recs, location = loc\<rparr>)) =
                (payload (arrays mem) (structs mem ! p))[i := b]
          | _ \<Rightarrow>
              payload (arrays mem2) (fst (Read key \<lparr>Records = deref mem2 recs, location = loc\<rparr>)) =
                payload (arrays mem) (structs mem ! p))"
proof -
  note r = Read_at_Read [OF rd]
  from rd present have e: "e = None" and copy: "structs mem1 ! c = structs mem ! p"
    by (auto simp: Read_at_def)
  from ptrs have fresh: "c \<notin> snd ` set recs"
    by (auto simp: pointers_in_def list_all_iff r(2))
  from mu obtain r' h' where m1: "mutate m (structs mem1 ! c) (arrays mem1) = Some (r', h')"
    and mem2: "mem2 = \<lparr>structs = (structs mem1)[c := r'], arrays = h'\<rparr>"
    by (auto simp: mutate_at_def split: option.splits)
  have c_lt: "c < length (structs mem1)" by (simp add: r(5))
  have cell: "structs mem2 ! c = r'" by (simp add: mem2 c_lt)
  have mine: "case m of
            SetRawData s \<Rightarrow> RawData (structs mem2 ! c) = s
          | SetContentType ct \<Rightarrow> ContentType (structs mem2 ! c) = ct
          | SetByte i b \<Rightarrow> structs mem2 ! c = structs mem1 ! c"
    using m1 by (cases m) (auto simp: cell split: slice.splits if_splits)
  have "take (length (structs mem)) (structs mem2) = structs mem"
    using r(4) by (simp add: mem2 r(2) [symmetric])
  from deref_cong [OF ptrs this] have d: "deref mem2 recs = deref mem recs" .
  have stored: "fst (Read key \<lparr>Records = deref mem recs, location = loc\<rparr>) = structs mem ! p"
    by (simp add: Read_deref present)
  have pay: "case m of
            SetByte i b \<Rightarrow> payload h' (structs mem ! p) = (payload (arrays mem) (structs mem ! p))[i := b]
          | _ \<Rightarrow> payload h' (structs mem ! p) = payload (arrays mem) (structs mem ! p)"
  proof (cases m)
    case (SetRawData s)
    with m1 show ?thesis by (simp add: r(3))
  next
    case (SetContentType ct)
    with m1 show ?thesis by (simp add: r(3))
  next
    case (SetByte i b)
    show ?thesis
    proof (cases "RawData (structs mem ! p)")
      case NilSlice
      with m1 SetByte show ?thesis by (simp add: copy)
    next
      case (Slice a off n)
      with slice have a: "a < length (arrays mem)" by (simp add: slice_in_def)
      from m1 SetByte Slice have "h' = (arrays mem)[a := (arrays mem ! a)[off + i := b]]"
        by (simp add: copy r(3) split: if_splits)
      with view_SetByte [OF a] show ?thesis
        by (simp add: SetByte payload_def Slice)
    qed
  qed
  have am2: "arrays mem2 = h'" by (simp add: mem2)
  from e r(1) fresh mine d stored pay show ?thesis
    by (simp add: am2 split: mutation.splits)
qed


theorem Read_returns_shallow_copy_witness:
  "map_of [(''A'', 0 :: nat)] ''A'' = Some 0 \<and>
   pointers_in \<lparr>structs = [\<lparr>RawData = Slice 0 0 2, ContentType = ''text/plain''\<rparr>],
                 arrays = [[0x76, 0x31]]\<rparr> [(''A'', 0)] \<and>
   slice_in [[0x76, 0x31]] (Slice 0 0 2) \<and>
   Read_at ''A'' [(''A'', 0)]
     \<lparr>structs = [\<lparr>RawData = Slice 0 0 2, ContentType = ''text/plain''\<rparr>], arrays = [[0x76, 0x31]]\<rparr>
   = ((1, None),
      \<lparr>structs = [\<lparr>RawData = Slice 0 0 2, ContentType = ''text/plain''\<rparr>,
                  \<lparr>RawData = Slice 0 0 2, ContentType = ''text/plain''\<rparr>],
         arrays = [[0x76, 0x31]]\<rparr>) \<and>
   mutate_at (SetContentType ''application/json'') 1
     \<lparr>structs = [\<lparr>RawData = Slice 0 0 2, ContentType = ''text/plain''\<rparr>,
                 \<lparr>RawData = Slice 0 0 2, ContentType = ''text/plain''\<rparr>],
        arrays = [[0x76, 0x31]]\<rparr>
   = Some \<lparr>structs = [\<lparr>RawData = Slice 0 0 2, ContentType = ''text/plain''\<rparr>,
                      \<lparr>RawData = Slice 0 0 2, ContentType = ''application/json''\<rparr>],
             arrays = [[0x76, 0x31]]\<rparr> \<and>
   Read ''A''
     \<lparr>Records = deref \<lparr>structs = [\<lparr>RawData = Slice 0 0 2, ContentType = ''text/plain''\<rparr>,
                      \<lparr>RawData = Slice 0 0 2, ContentType = ''application/json''\<rparr>],
             arrays = [[0x76, 0x31]]\<rparr> [(''A'', 0)], location = ''n.db''\<rparr>
   = (\<lparr>RawData = Slice 0 0 2, ContentType = ''text/plain''\<rparr>, None) \<and>
   mutate_at (SetByte 1 0x32) 1
     \<lparr>structs = [\<lparr>RawData = Slice 0 0 2, ContentType = ''text/plain''\<rparr>,
                 \<lparr>RawData = Slice 0 0 2, ContentType = ''text/plain''\<rparr>],
        arrays = [[0x76, 0x31]]\<rparr>
   = Some \<lparr>structs = [\<lparr>RawData = Slice 0 0 2, ContentType = ''text/plain''\<rparr>,
                      \<lparr>RawData = Slice 0 0 2, ContentType = ''text/plain''\<rparr>],
             arrays = [[0x76, 0x32]]\<rparr> \<and>
   payload [[0x76, 0x32]]
     (fst (Read ''A''
        \<lparr>Records = deref \<lparr>structs = [\<lparr>RawData = Slice 0 0 2, ContentType = ''text/plain''\<rparr>,
                      \<lparr>RawData = Slice 0 0 2, ContentType = ''text/plain''\<rparr>],
             arrays = [[0x76, 0x32]]\<rparr> [(''A'', 0)], location = ''n.db''\<rparr>))
   = [0x76, 0x32]"
proof -
  let ?r = "\<lparr>RawData = Slice 0 0 2, ContentType = ''text/plain''\<rparr>"
  let ?mem = "\<lparr>structs = [?r], arrays = [[0x76, 0x31]]\<rparr>"
  let ?mem1 = "\<lparr>structs = [?r, ?r], arrays = [[0x76, 0x31]]\<rparr>"
  have present: "map_of [(''A'', 0 :: nat)] ''A'' = Some 0" by simp
  have ptrs: "pointers_in ?mem [(''A'', 0)]" by (simp add: pointers_in_def)
  have slice: "slice_in (arrays ?mem) (RawData (structs ?mem ! 0))" by (simp add: slice_in_def)
  have rd: "Read_at ''A'' [(''A'', 0)] ?mem = ((1, None), ?mem1)" by (simp add: Read_at_def)
  have mu1: "mutate_at (SetContentType ''application/json'') 1 ?mem1
    = Some \<lparr>structs = [?r, \<lparr>RawData = Slice 0 0 2, ContentType = ''application/json''\<rparr>],
             arrays = [[0x76, 0x31]]\<rparr>"
    by (simp add: mutate_at_def)
  have mu2: "mutate_at (SetByte 1 0x32) 1 ?mem1 = Some \<lparr>structs = [?r, ?r], arrays = [[0x76, 0x32]]\<rparr>"
    by (simp add: mutate_at_def)
  from Read_returns_shallow_copy [OF present ptrs slice rd mu1, of "''n.db''"]
    Read_returns_shallow_copy [OF present ptrs slice rd mu2, of "''n.db''"]
    present ptrs slice rd mu1 mu2
  show ?thesis by (simp add: deref_def Read_def payload_def)
qed

text \<open>
  Were the caller handed the stored cell itself, the same assignment would change the store.
\<close>

lemma assignment_through_stored_cell:
  "mutate_at (SetContentType ''application/json'') 0
     \<lparr>structs = [\<lparr>RawData = Slice 0 0 2, ContentType = ''text/plain''\<rparr>], arrays = [[0x76, 0x31]]\<rparr>
   = Some \<lparr>structs = [\<lparr>RawData = Slice 0 0 2, ContentType = ''application/json''\<rparr>],
             arrays = [[0x76, 0x31]]\<rparr> \<and>
   deref \<lparr>structs = [\<lparr>RawData = Slice 0 0 2, ContentType = ''application/json''\<rparr>],
            arrays = [[0x76, 0x31]]\<rparr> [(''A'', 0)]
   \<noteq> deref \<lparr>structs = [\<lparr>RawData = Slice 0 0 2, ContentType = ''text/plain''\<rparr>],
              arrays = [[0x76, 0x31]]\<rparr> [(''A'', 0)]"
  by (simp add: mutate_at_def deref_def)

end
